theory Spec2Isabelle
  imports Main "HOL-Library.Multiset" "HOL-Library.Sublist"
begin

section \<open>JavaScript values used by the services\<close>

text \<open>
  The services of gong-cloud are TypeScript classes over untyped (\<open>any\<close>) JSON values.
  An optional field is an \<open>option\<close>; a string is a \<open>string\<close>; a field that the code
  tests for truthiness is falsy when it is missing or the empty string.
  An exception is a value of type \<open>error\<close>, and a function that can throw returns
  \<open>error + 'a\<close> with \<open>Inl\<close> the exception.
\<close>

datatype error = ApiError string | TypeError | RangeError

text \<open>\<open>a || b\<close> on an optional string and a string default.\<close>

definition or_else :: "string option \<Rightarrow> string \<Rightarrow> string" where
  "or_else a b = (case a of None \<Rightarrow> b | Some s \<Rightarrow> if s = [] then b else s)"

text \<open>\<open>a || b\<close> on a string and a string default.\<close>

definition str_or :: "string \<Rightarrow> string \<Rightarrow> string" where
  "str_or a b = (if a = [] then b else a)"

text \<open>The value of an optional string when it is truthy.\<close>

definition truthy :: "string option \<Rightarrow> string option" where
  "truthy a = (case a of None \<Rightarrow> None | Some s \<Rightarrow> if s = [] then None else Some s)"

text \<open>\<open>String.prototype.toLowerCase\<close>, on the ASCII letters.\<close>

definition lower_char :: "char \<Rightarrow> char" where
  "lower_char c =
     (case map_of (zip ''ABCDEFGHIJKLMNOPQRSTUVWXYZ'' ''abcdefghijklmnopqrstuvwxyz'') c of
        None \<Rightarrow> c | Some d \<Rightarrow> d)"

definition toLowerCase :: "string \<Rightarrow> string" where
  "toLowerCase s = map lower_char s"

text \<open>\<open>s.includes(sub)\<close>: \<open>sub\<close> occurs in \<open>s\<close> as a contiguous substring.\<close>

fun str_includes :: "string \<Rightarrow> string \<Rightarrow> bool" where
  "str_includes [] sub = (sub = [])"
| "str_includes (c # cs) sub = (prefix sub (c # cs) \<or> str_includes cs sub)"

text \<open>\<open>s.split(c)\<close> for a one-character separator: never an empty array.\<close>

fun split_on :: "char \<Rightarrow> string \<Rightarrow> string list" where
  "split_on c [] = [[]]"
| "split_on c (x # xs) =
     (if x = c then [] # split_on c xs
      else (case split_on c xs of [] \<Rightarrow> [[x]] | p # ps \<Rightarrow> (x # p) # ps))"

text \<open>\<open>String.prototype.trim\<close>, on the ASCII white space.\<close>

definition is_space :: "char \<Rightarrow> bool" where
  "is_space c = (c \<in> set [CHR '' '', CHR 0x09, CHR 0x0A, CHR 0x0B, CHR 0x0C, CHR 0x0D])"

definition trim :: "string \<Rightarrow> string" where
  "trim s = rev (dropWhile is_space (rev (dropWhile is_space s)))"

text \<open>\<open>s.substring(0, n)\<close>.\<close>

definition substring0 :: "nat \<Rightarrow> string \<Rightarrow> string" where
  "substring0 n s = take n s"

section \<open>The data model (models/types.ts)\<close>

text \<open>A user record as the platform sends it: every field but the id may be missing.\<close>

record raw_user =
  ru_id :: string
  ru_firstName :: "string option"
  ru_lastName :: "string option"
  ru_emailAddress :: "string option"
  ru_email :: "string option"
  ru_title :: "string option"
  ru_role :: "string option"
  ru_active :: "bool option"
  ru_created :: "string option"

record GongUser =
  u_id :: string
  u_firstName :: string
  u_lastName :: string
  u_emailAddress :: string
  u_title :: string
  u_active :: bool
  u_created :: string

record GongParticipant =
  p_id :: "string option"
  p_name :: "string option"
  p_firstName :: "string option"
  p_lastName :: "string option"
  p_email :: "string option"
  p_role :: "string option"
  p_company :: "string option"

record GongSpeaker =
  s_id :: string
  s_name :: string
  s_email :: "string option"
  s_role :: "string option"
  s_company :: "string option"

type_synonym SpeakerMap = "string \<rightharpoonup> GongSpeaker"

record sentence =
  sen_start :: nat
  sen_text :: string

record GongTranscriptSegment =
  speakerId :: string
  topic :: "string option"
  sentences :: "sentence list"

record raw_call =
  c_id :: string
  c_title :: "string option"
  c_scheduled :: "string option"
  c_started :: "string option"
  c_startTime :: "string option"
  c_duration :: "nat option"
  c_direction :: "string option"
  c_system :: "string option"
  c_scope :: "string option"
  c_media :: "string option"
  c_language :: "string option"
  c_url :: "string option"
  c_transcript :: bool
  c_participants :: "GongParticipant list option"

section \<open>The accessor (GongApiClient) and the state of the services\<close>

text \<open>
  The answers of the platform. \<open>getTranscripts\<close> answers an object whose transcript
  fields the services read under two names: \<open>transcripts\<close> and
  \<open>callTranscripts[0].transcript\<close>.
\<close>

record call_response =
  cr_call :: "raw_call option"

record call_transcript =
  ct_transcript :: "GongTranscriptSegment list option"

record transcript_response =
  tr_transcripts :: "GongTranscriptSegment list option"
  tr_callTranscripts :: "call_transcript list option"

record gong_api =
  api_getCall :: "string \<Rightarrow> error + call_response"
  api_getTranscripts :: "string list \<Rightarrow> error + transcript_response"
  api_getAllUsers :: "error + raw_user list"

datatype api_call = GetCall string | GetTranscripts "string list" | GetAllUsers

text \<open>
  The state: the two private fields of \<open>UserService\<close> (a \<open>Map\<close> in insertion order
  and the time of the last refresh) and the log of the requests sent to the platform.
  The platform is a function from the number of requests sent so far to its answers, so
  two requests may be answered differently.
\<close>

record world =
  userCache :: "(string \<times> GongUser) list"
  lastCacheUpdate :: int
  api_log :: "api_call list"

definition initial_world :: world where
  "initial_world = \<lparr>userCache = [], lastCacheUpdate = 0, api_log = []\<rparr>"

definition answers :: "(nat \<Rightarrow> gong_api) \<Rightarrow> world \<Rightarrow> gong_api" where
  "answers api w = api (length (api_log w))"

definition logged :: "api_call \<Rightarrow> world \<Rightarrow> world" where
  "logged c w = w\<lparr>api_log := api_log w @ [c]\<rparr>"

definition apiClient_getCall ::
  "(nat \<Rightarrow> gong_api) \<Rightarrow> string \<Rightarrow> world \<Rightarrow> (error + call_response) \<times> world" where
  "apiClient_getCall api callId w = (api_getCall (answers api w) callId, logged (GetCall callId) w)"

definition apiClient_getTranscripts ::
  "(nat \<Rightarrow> gong_api) \<Rightarrow> string list \<Rightarrow> world \<Rightarrow> (error + transcript_response) \<times> world" where
  "apiClient_getTranscripts api callIds w =
     (api_getTranscripts (answers api w) callIds, logged (GetTranscripts callIds) w)"

definition apiClient_getAllUsers ::
  "(nat \<Rightarrow> gong_api) \<Rightarrow> world \<Rightarrow> (error + raw_user list) \<times> world" where
  "apiClient_getAllUsers api w = (api_getAllUsers (answers api w), logged GetAllUsers w)"

section \<open>UserService (services/user-service.ts)\<close>

definition cacheExpiryMs :: int where
  "cacheExpiryMs = 1000 * 60 * 60"

definition processUser :: "raw_user \<Rightarrow> GongUser" where
  "processUser user =
     \<lparr>u_id = ru_id user,
      u_firstName = or_else (ru_firstName user) [],
      u_lastName = or_else (ru_lastName user) [],
      u_emailAddress = or_else (ru_emailAddress user) (or_else (ru_email user) []),
      u_title = or_else (ru_title user) (or_else (ru_role user) []),
      u_active = (ru_active user \<noteq> Some False),
      u_created = or_else (ru_created user) []\<rparr>"

text \<open>\<open>Map.prototype.set\<close>: a known key keeps its place, a new key goes last.\<close>

fun map_set :: "(string \<times> 'v) list \<Rightarrow> string \<Rightarrow> 'v \<Rightarrow> (string \<times> 'v) list" where
  "map_set [] k v = [(k, v)]"
| "map_set ((k', v') # m) k v = (if k' = k then (k, v) # m else (k', v') # map_set m k v)"

definition fill_cache :: "GongUser list \<Rightarrow> (string \<times> GongUser) list" where
  "fill_cache allUsers = foldl (\<lambda>m user. map_set m (u_id user) user) [] allUsers"

definition getAllUsers ::
  "(nat \<Rightarrow> gong_api) \<Rightarrow> int \<Rightarrow> bool \<Rightarrow> world \<Rightarrow> (error + GongUser list) \<times> world" where
  "getAllUsers api now forceRefresh w =
     (if \<not> forceRefresh \<and> length (userCache w) > 0 \<and> now - lastCacheUpdate w < cacheExpiryMs
      then (Inr (map snd (userCache w)), w)
      else (case apiClient_getAllUsers api w of
              (Inl e, w1) \<Rightarrow> (Inl e, w1)
            | (Inr rawUsers, w1) \<Rightarrow>
                (let allUsers = map processUser rawUsers
                 in (Inr allUsers,
                     w1\<lparr>userCache := fill_cache allUsers, lastCacheUpdate := now\<rparr>))))"

text \<open>The predicate of the \<open>filter\<close> in \<open>findUsers\<close>, branch by branch.\<close>

definition name_matches :: "string \<Rightarrow> GongUser \<Rightarrow> bool" where
  "name_matches name user =
     (let fullName = toLowerCase (u_firstName user @ '' '' @ u_lastName user);
          searchName = toLowerCase name
      in if str_includes fullName searchName then True
         else list_ex (\<lambda>part. str_includes (toLowerCase (u_firstName user)) part \<or>
                               str_includes (toLowerCase (u_lastName user)) part)
                (split_on CHR '' '' searchName))"

definition email_matches :: "string \<Rightarrow> GongUser \<Rightarrow> bool" where
  "email_matches email user =
     (u_emailAddress user \<noteq> [] \<and>
      str_includes (toLowerCase (u_emailAddress user)) (toLowerCase email))"

definition user_filter :: "string option \<Rightarrow> string option \<Rightarrow> string option \<Rightarrow> GongUser \<Rightarrow> bool" where
  "user_filter name email ident user =
     (if (case truthy ident of None \<Rightarrow> False | Some i \<Rightarrow> u_id user = i) then True
      else (case truthy name of
              Some n \<Rightarrow> name_matches n user
            | None \<Rightarrow>
                (case truthy email of
                   Some e \<Rightarrow> email_matches e user
                 | None \<Rightarrow> False)))"

definition findUsers ::
  "(nat \<Rightarrow> gong_api) \<Rightarrow> int \<Rightarrow> string option \<Rightarrow> string option \<Rightarrow> string option \<Rightarrow> world
     \<Rightarrow> (error + GongUser list) \<times> world" where
  "findUsers api now name email ident w =
     (case getAllUsers api now False w of
        (Inl e, w1) \<Rightarrow> (Inl e, w1)
      | (Inr allUsers, w1) \<Rightarrow>
          (case (case truthy ident of None \<Rightarrow> None | Some i \<Rightarrow> map_of (userCache w1) i) of
             Some user \<Rightarrow> (Inr [user], w1)
           | None \<Rightarrow> (Inr (filter (user_filter name email ident) allUsers), w1)))"

text \<open>
  \<open>getSpeakerMap\<close>. A \<open>SpeakerMap\<close> is a plain object used as a dictionary; it is
  modelled as a finite map, which is what the object is for every key that is not the
  name of a member of \<open>Object.prototype\<close>.
\<close>

definition participant_speaker :: "string \<Rightarrow> GongParticipant \<Rightarrow> GongSpeaker" where
  "participant_speaker i participant =
     \<lparr>s_id = i,
      s_name = or_else (p_name participant)
                 (str_or (trim (or_else (p_firstName participant) [] @ '' '' @
                                or_else (p_lastName participant) []))
                    (''Person '' @ substring0 4 i)),
      s_email = p_email participant,
      s_role = p_role participant,
      s_company = p_company participant\<rparr>"

definition seed_participants :: "GongParticipant list \<Rightarrow> SpeakerMap" where
  "seed_participants participants =
     foldl (\<lambda>speakerMap participant.
              case truthy (p_id participant) of
                None \<Rightarrow> speakerMap
              | Some i \<Rightarrow> speakerMap(i \<mapsto> participant_speaker i participant))
       Map.empty participants"

text \<open>The \<open>Set\<close> of the truthy speaker ids, in the order of their first occurrence.\<close>

definition collect_speaker_ids :: "GongTranscriptSegment list \<Rightarrow> string list" where
  "collect_speaker_ids transcripts =
     foldl (\<lambda>speakerIds segment.
              if speakerId segment \<noteq> [] \<and> speakerId segment \<notin> set speakerIds
              then speakerIds @ [speakerId segment] else speakerIds)
       [] transcripts"

definition user_speaker :: "GongUser \<Rightarrow> GongSpeaker" where
  "user_speaker user =
     \<lparr>s_id = u_id user,
      s_name = str_or (trim (u_firstName user @ '' '' @ u_lastName user))
                 (str_or (u_emailAddress user) (''User '' @ substring0 4 (u_id user))),
      s_email = Some (u_emailAddress user),
      s_role = Some (u_title user),
      s_company = Some ''Unknown''\<rparr>"

definition make_userMap :: "GongUser list \<Rightarrow> SpeakerMap" where
  "make_userMap allUsers =
     foldl (\<lambda>userMap user. userMap(u_id user \<mapsto> user_speaker user)) Map.empty allUsers"

definition lookup_missing ::
  "(string \<times> GongUser) list \<Rightarrow> SpeakerMap \<Rightarrow> SpeakerMap \<Rightarrow> string \<Rightarrow> SpeakerMap" where
  "lookup_missing cache userMap speakerMap i =
     (case map_of cache i of
        Some user \<Rightarrow> speakerMap(i \<mapsto> user_speaker user)
      | None \<Rightarrow> (case userMap i of
                   Some sp \<Rightarrow> speakerMap(i \<mapsto> sp)
                 | None \<Rightarrow> speakerMap))"

definition placeholder_speaker :: "string \<Rightarrow> GongSpeaker" where
  "placeholder_speaker i =
     \<lparr>s_id = i, s_name = ''Person '' @ substring0 4 i, s_email = None, s_role = None,
      s_company = Some ''Unknown''\<rparr>"

definition add_placeholder :: "SpeakerMap \<Rightarrow> string \<Rightarrow> SpeakerMap" where
  "add_placeholder speakerMap i =
     (case speakerMap i of None \<Rightarrow> speakerMap(i \<mapsto> placeholder_speaker i) | Some _ \<Rightarrow> speakerMap)"

text \<open>Step 1: the call details, fetched when the caller gave none.\<close>

definition fetch_callDetails ::
  "(nat \<Rightarrow> gong_api) \<Rightarrow> string \<Rightarrow> raw_call option \<Rightarrow> world
     \<Rightarrow> (error + raw_call option) \<times> world" where
  "fetch_callDetails api callId callDetails w =
     (case callDetails of
        Some cd \<Rightarrow> (Inr (Some cd), w)
      | None \<Rightarrow> (case apiClient_getCall api callId w of
                   (Inl e, w1) \<Rightarrow> (Inl e, w1)
                 | (Inr callResponse, w1) \<Rightarrow> (Inr (cr_call callResponse), w1)))"

definition participants_of :: "raw_call option \<Rightarrow> GongParticipant list" where
  "participants_of callDetails =
     (case callDetails of
        None \<Rightarrow> []
      | Some cd \<Rightarrow> (case c_participants cd of None \<Rightarrow> [] | Some ps \<Rightarrow> ps))"

text \<open>Steps 4 to 6, once the directory is loaded: the gaps are filled in.\<close>

definition fill_gaps ::
  "(string \<times> GongUser) list \<Rightarrow> GongUser list \<Rightarrow> SpeakerMap \<Rightarrow> string list \<Rightarrow> SpeakerMap" where
  "fill_gaps cache allUsers speakerMap speakerIds =
     (let userMap = make_userMap allUsers;
          missingIds = filter (\<lambda>i. speakerMap i = None) speakerIds;
          speakerMap5 = foldl (lookup_missing cache userMap) speakerMap missingIds
      in foldl add_placeholder speakerMap5 speakerIds)"

text \<open>Steps 3 to 6: the transcript is read under the name \<open>transcripts\<close>.\<close>

definition resolve_transcript_speakers ::
  "(nat \<Rightarrow> gong_api) \<Rightarrow> int \<Rightarrow> string \<Rightarrow> SpeakerMap \<Rightarrow> world \<Rightarrow> (error + SpeakerMap) \<times> world" where
  "resolve_transcript_speakers api now callId speakerMap w1 =
     (case apiClient_getTranscripts api [callId] w1 of
        (Inl e, w2) \<Rightarrow> (Inl e, w2)
      | (Inr transcriptResponse, w2) \<Rightarrow>
          (let transcripts =
                 (case tr_transcripts transcriptResponse of None \<Rightarrow> [] | Some t \<Rightarrow> t);
               speakerIds = collect_speaker_ids transcripts
           in case getAllUsers api now False w2 of
                (Inl e, w3) \<Rightarrow> (Inl e, w3)
              | (Inr allUsers, w3) \<Rightarrow>
                  (Inr (fill_gaps (userCache w3) allUsers speakerMap speakerIds), w3)))"

text \<open>The body of the \<open>try\<close> block of \<open>getSpeakerMap\<close>.\<close>

definition getSpeakerMap_try ::
  "(nat \<Rightarrow> gong_api) \<Rightarrow> int \<Rightarrow> string \<Rightarrow> raw_call option \<Rightarrow> world
     \<Rightarrow> (error + SpeakerMap) \<times> world" where
  "getSpeakerMap_try api now callId callDetails w =
     (case fetch_callDetails api callId callDetails w of
        (Inl e, w1) \<Rightarrow> (Inl e, w1)
      | (Inr callDetails', w1) \<Rightarrow>
          resolve_transcript_speakers api now callId
            (seed_participants (participants_of callDetails')) w1)"

text \<open>\<open>getSpeakerMap\<close>: the \<open>try\<close> block and its \<open>catch\<close>, which returns \<open>{}\<close>.\<close>

definition getSpeakerMap ::
  "(nat \<Rightarrow> gong_api) \<Rightarrow> int \<Rightarrow> string \<Rightarrow> raw_call option \<Rightarrow> world
     \<Rightarrow> (error + SpeakerMap) \<times> world" where
  "getSpeakerMap api now callId callDetails w =
     (case getSpeakerMap_try api now callId callDetails w of
        (Inl e, w') \<Rightarrow> (Inr Map.empty, w')
      | (Inr speakerMap, w') \<Rightarrow> (Inr speakerMap, w'))"

section \<open>TranscriptService (services/transcript-service.ts)\<close>

text \<open>
  Numbers: a sentence's \<open>start\<close> is a natural number of milliseconds; \<open>Math.min\<close> and
  \<open>Math.max\<close> of no argument are the infinities, and a missing duration times 1000 is
  \<open>NaN\<close>. A natural number is printed in decimal, as JavaScript prints the integers
  below \<open>10^21\<close>.
\<close>

datatype jsnum = Num nat | Infinity | NegInfinity | NaN

definition digit_char :: "nat \<Rightarrow> char" where
  "digit_char d = ''0123456789'' ! (d mod 10)"

fun string_of_nat :: "nat \<Rightarrow> string" where
  "string_of_nat n =
     (if n < 10 then [digit_char n]
      else string_of_nat (n div 10) @ [digit_char (n mod 10)])"

declare string_of_nat.simps [simp del]

text \<open>\<open>s.padStart(2, '0')\<close>.\<close>

definition padStart2 :: "string \<Rightarrow> string" where
  "padStart2 s = replicate (2 - length s) CHR ''0'' @ s"

fun formatMilliseconds :: "jsnum \<Rightarrow> string" where
  "formatMilliseconds (Num ms) =
     string_of_nat (ms div 60000) @ '':'' @ padStart2 (string_of_nat ((ms mod 60000) div 1000))"
| "formatMilliseconds Infinity = ''Infinity:NaN''"
| "formatMilliseconds NegInfinity = ''-Infinity:NaN''"
| "formatMilliseconds NaN = ''NaN:NaN''"

fun math_min :: "nat list \<Rightarrow> jsnum" where
  "math_min [] = Infinity"
| "math_min (x # xs) = Num (foldl min x xs)"

fun math_max :: "nat list \<Rightarrow> jsnum" where
  "math_max [] = NegInfinity"
| "math_max (x # xs) = Num (foldl max x xs)"

text \<open>\<open>parts.join(sep)\<close>.\<close>

fun join :: "string \<Rightarrow> string list \<Rightarrow> string" where
  "join sep [] = []"
| "join sep [x] = x"
| "join sep (x # y # ys) = x @ sep @ join sep (y # ys)"

text \<open>\<open>s.split(sep)[0]\<close>: what stands before the first occurrence of \<open>sep\<close>.\<close>

fun before_sep :: "string \<Rightarrow> string \<Rightarrow> string" where
  "before_sep sep [] = []"
| "before_sep sep (c # cs) = (if prefix sep (c # cs) then [] else c # before_sep sep cs)"

text \<open>\<open>xs.length > n ? xs.slice(0, n) : xs\<close> under the guard \<open>n > 0\<close>.\<close>

definition limit :: "int \<Rightarrow> 'a list \<Rightarrow> 'a list" where
  "limit n xs = (if n > 0 \<and> int (length xs) > n then take (nat n) xs else xs)"

text \<open>
  What the services take from the JavaScript runtime: \<open>new Date(s).toISOString()\<close>
  (\<open>None\<close> when the date is invalid, where the method throws a \<open>RangeError\<close>) and
  \<open>a.localeCompare(b)\<close>, which depends on the locale of the process.
\<close>

record runtime =
  rt_toISOString :: "string \<Rightarrow> string option"
  rt_localeCompare :: "string \<Rightarrow> string \<Rightarrow> int"

definition new_Date_toISOString :: "runtime \<Rightarrow> string \<Rightarrow> error + string" where
  "new_Date_toISOString rt s =
     (case rt_toISOString rt s of None \<Rightarrow> Inl RangeError | Some isoString \<Rightarrow> Inr isoString)"

record speaker_view =
  sv_name :: string
  sv_company :: "string option"
  sv_role :: "string option"

record stamped_sentence =
  ss_start :: nat
  ss_text :: string
  ss_timestamp :: string

record processed_segment =
  ps_speakerId :: string
  ps_speaker :: speaker_view
  ps_topic :: string
  ps_sentences :: "stamped_sentence list"

record exchange =
  ex_speaker :: speaker_view
  ex_text :: string
  ex_timestamp :: "string option"

record transcript_section =
  sec_topic :: string
  sec_timeRange :: string
  sec_exchanges :: "exchange list"

record participant_view =
  pv_name :: string
  pv_company :: string
  pv_role :: string

record formatted_call =
  fc_id :: string
  fc_title :: "string option"
  fc_date :: string
  fc_duration :: "string option"
  fc_participants :: "participant_view list option"

record FormattedTranscript =
  ft_call :: formatted_call
  ft_sections :: "transcript_section list"

record raw_call_info =
  rci_id :: string
  rci_title :: "string option"
  rci_date :: string
  rci_duration :: string

datatype transcript_format = Concise | Full | Raw

datatype transcript_result =
  RawTranscript raw_call_info "processed_segment list"
| Formatted FormattedTranscript

definition processSegment :: "GongTranscriptSegment \<Rightarrow> SpeakerMap \<Rightarrow> processed_segment" where
  "processSegment segment speakerMap =
     (let speaker =
            (case speakerMap (speakerId segment) of
               Some sp \<Rightarrow> sp
             | None \<Rightarrow>
                 \<lparr>s_id = speakerId segment,
                  s_name = ''Speaker '' @ substring0 8 (speakerId segment),
                  s_email = None,
                  s_role = Some ''Unknown'',
                  s_company = Some ''Unknown''\<rparr>)
      in \<lparr>ps_speakerId = speakerId segment,
          ps_speaker = \<lparr>sv_name = s_name speaker, sv_company = s_company speaker,
                        sv_role = s_role speaker\<rparr>,
          ps_topic = or_else (topic segment) [],
          ps_sentences =
            map (\<lambda>s. \<lparr>ss_start = sen_start s, ss_text = sen_text s,
                       ss_timestamp = formatMilliseconds (Num (sen_start s))\<rparr>)
              (sentences segment)\<rparr>)"

text \<open>\<open>getRawTranscript\<close> and \<open>getFormattedTranscript\<close> read the segments here.\<close>

definition extract_transcript :: "transcript_response \<Rightarrow> GongTranscriptSegment list" where
  "extract_transcript response =
     (case tr_callTranscripts response of
        None \<Rightarrow> []
      | Some [] \<Rightarrow> []
      | Some (first # _) \<Rightarrow> (case ct_transcript first of None \<Rightarrow> [] | Some t \<Rightarrow> t))"

definition getRawTranscript ::
  "(nat \<Rightarrow> gong_api) \<Rightarrow> string \<Rightarrow> world \<Rightarrow> (error + GongTranscriptSegment list) \<times> world" where
  "getRawTranscript api callId w =
     (case apiClient_getTranscripts api [callId] w of
        (Inl e, w1) \<Rightarrow> (Inl e, w1)
      | (Inr response, w1) \<Rightarrow> (Inr (extract_transcript response), w1))"

definition topic_of :: "GongTranscriptSegment \<Rightarrow> string" where
  "topic_of segment = or_else (topic segment) ''Untitled Topic''"

text \<open>
  \<open>topicGroups\<close> is a plain object used as a dictionary from a topic to its segments:
  an association list in the order in which the keys were created. As for the speaker
  map, this is what the object is for every topic that is not the name of a member of
  \<open>Object.prototype\<close>.
\<close>

fun push_group ::
  "(string \<times> GongTranscriptSegment list) list \<Rightarrow> string \<Rightarrow> GongTranscriptSegment
     \<Rightarrow> (string \<times> GongTranscriptSegment list) list" where
  "push_group [] t segment = [(t, [segment])]"
| "push_group ((t', segs) # groups) t segment =
     (if t' = t then (t', segs @ [segment]) # groups
      else (t', segs) # push_group groups t segment)"

definition group_by_topic ::
  "GongTranscriptSegment list \<Rightarrow> (string \<times> GongTranscriptSegment list) list" where
  "group_by_topic segments =
     foldl (\<lambda>topicGroups segment. push_group topicGroups (topic_of segment) segment) [] segments"

text \<open>
  \<open>Object.entries\<close>: the keys that are array indices (canonical decimal numerals below
  \<open>2^32 - 1\<close>) come first, in ascending numeric order, then the other keys in the order of
  their creation.
\<close>

definition digit_value :: "char \<Rightarrow> nat" where
  "digit_value c =
     (case map_of (zip ''0123456789'' [0, 1, 2, 3, 4, 5, 6, 7, 8, 9]) c of
        None \<Rightarrow> 0 | Some d \<Rightarrow> d)"

definition nat_of_digits :: "string \<Rightarrow> nat" where
  "nat_of_digits k = foldl (\<lambda>n c. 10 * n + digit_value c) 0 k"

definition is_array_index :: "string \<Rightarrow> bool" where
  "is_array_index k =
     (k \<noteq> [] \<and> list_all (\<lambda>c. c \<in> set ''0123456789'') k \<and>
      (if take 1 k = ''0'' then k = ''0'' else True) \<and>
      nat_of_digits k < 2 ^ 32 - 1)"

definition object_entries :: "(string \<times> 'v) list \<Rightarrow> (string \<times> 'v) list" where
  "object_entries obj =
     sort_key (\<lambda>e. nat_of_digits (fst e)) (filter (\<lambda>e. is_array_index (fst e)) obj) @
     filter (\<lambda>e. \<not> is_array_index (fst e)) obj"

definition make_exchange :: "int \<Rightarrow> SpeakerMap \<Rightarrow> GongTranscriptSegment \<Rightarrow> exchange" where
  "make_exchange maxSentences speakerMap segment =
     (let processedSegment = processSegment segment speakerMap;
          sentences' = limit maxSentences (ps_sentences processedSegment)
      in \<lparr>ex_speaker = ps_speaker processedSegment,
          ex_text = join '' '' (map ss_text sentences'),
          ex_timestamp = (case sentences' of [] \<Rightarrow> None | s # _ \<Rightarrow> Some (ss_timestamp s))\<rparr>)"

definition make_section ::
  "int \<Rightarrow> SpeakerMap \<Rightarrow> string \<times> GongTranscriptSegment list \<Rightarrow> transcript_section" where
  "make_section maxSentences speakerMap entry =
     (let topicSegments = snd entry;
          starts = concat (map (\<lambda>s. map sen_start (sentences s)) topicSegments);
          firstStart = math_min starts;
          lastStart = math_max starts
      in \<lparr>sec_topic = fst entry,
          sec_timeRange = formatMilliseconds firstStart @ '' - '' @ formatMilliseconds lastStart,
          sec_exchanges = map (make_exchange maxSentences speakerMap) topicSegments\<rparr>)"

text \<open>
  \<open>sections.sort(compare)\<close>, a stable sort: each section is inserted before the first
  section it does not compare greater than.
\<close>

definition section_start :: "transcript_section \<Rightarrow> string" where
  "section_start s = before_sep '' - '' (sec_timeRange s)"

fun insert_section ::
  "runtime \<Rightarrow> transcript_section \<Rightarrow> transcript_section list \<Rightarrow> transcript_section list" where
  "insert_section rt a [] = [a]"
| "insert_section rt a (b # bs) =
     (if rt_localeCompare rt (section_start a) (section_start b) \<le> 0 then a # b # bs
      else b # insert_section rt a bs)"

definition sort_sections :: "runtime \<Rightarrow> transcript_section list \<Rightarrow> transcript_section list" where
  "sort_sections rt secs = foldr (insert_section rt) secs []"

definition build_sections ::
  "runtime \<Rightarrow> int \<Rightarrow> int \<Rightarrow> SpeakerMap \<Rightarrow> GongTranscriptSegment list \<Rightarrow> transcript_section list" where
  "build_sections rt maxSegments maxSentences speakerMap transcripts =
     (let segments = limit maxSegments transcripts;
          topicGroups = group_by_topic segments
      in sort_sections rt (map (make_section maxSentences speakerMap) (object_entries topicGroups)))"

definition participant_view_of :: "GongParticipant \<Rightarrow> participant_view" where
  "participant_view_of p =
     \<lparr>pv_name = or_else (p_name p)
                  (str_or (trim (or_else (p_firstName p) [] @ '' '' @ or_else (p_lastName p) []))
                     ''Unknown''),
      pv_company = or_else (p_company p) ''Unknown'',
      pv_role = or_else (p_role p) ''Unknown''\<rparr>"

text \<open>What \<open>getFormattedTranscript\<close> does once its three fetches have answered.\<close>

definition format_transcript ::
  "runtime \<Rightarrow> transcript_format \<Rightarrow> int \<Rightarrow> int \<Rightarrow> SpeakerMap \<Rightarrow> raw_call
     \<Rightarrow> GongTranscriptSegment list \<Rightarrow> error + transcript_result" where
  "format_transcript rt format maxSegments maxSentences speakerMap call transcripts =
     (case new_Date_toISOString rt (or_else (c_startTime call) (or_else (c_scheduled call) [])) of
        Inl e \<Rightarrow> Inl e
      | Inr isoString \<Rightarrow>
          (if format = Raw then
             Inr (RawTranscript
                    \<lparr>rci_id = c_id call, rci_title = c_title call, rci_date = isoString,
                     rci_duration =
                       formatMilliseconds
                         (case c_duration call of None \<Rightarrow> NaN | Some d \<Rightarrow> Num (d * 1000))\<rparr>
                    (map (\<lambda>segment. processSegment segment speakerMap) transcripts))
           else
             Inr (Formatted
                    \<lparr>ft_call =
                       \<lparr>fc_id = c_id call, fc_title = c_title call,
                        fc_date = before_sep ''T'' isoString,
                        fc_duration =
                          (case c_duration call of
                             None \<Rightarrow> None
                           | Some d \<Rightarrow>
                               if d = 0 then None
                               else Some (string_of_nat (d div 60) @ ''m '' @
                                          string_of_nat (d mod 60) @ ''s'')),
                        fc_participants =
                          map_option (map participant_view_of) (c_participants call)\<rparr>,
                     ft_sections =
                       build_sections rt maxSegments maxSentences speakerMap transcripts\<rparr>)))"

definition getFormattedTranscript ::
  "runtime \<Rightarrow> (nat \<Rightarrow> gong_api) \<Rightarrow> int \<Rightarrow> string \<Rightarrow> transcript_format \<Rightarrow> int \<Rightarrow> int \<Rightarrow> world
     \<Rightarrow> (error + transcript_result) \<times> world" where
  "getFormattedTranscript rt api now callId format maxSegments maxSentences w =
     (case apiClient_getCall api callId w of
        (Inl e, w1) \<Rightarrow> (Inl e, w1)
      | (Inr callResponse, w1) \<Rightarrow>
          (case apiClient_getTranscripts api [callId] w1 of
             (Inl e, w2) \<Rightarrow> (Inl e, w2)
           | (Inr transcriptResponse, w2) \<Rightarrow>
               (case getSpeakerMap api now callId (cr_call callResponse) w2 of
                  (Inl e, w3) \<Rightarrow> (Inl e, w3)
                | (Inr speakerMap, w3) \<Rightarrow>
                    (case cr_call callResponse of
                       None \<Rightarrow> (Inl TypeError, w3)
                     | Some call \<Rightarrow>
                         (format_transcript rt format maxSegments maxSentences speakerMap call
                            (extract_transcript transcriptResponse), w3)))))"

section \<open>CallService (services/call-service.ts)\<close>

text \<open>
  The \<open>participants\<close> of a call: the call record's own list, or the formatted list of
  the transcript once \<open>getCall\<close> has overwritten it.
\<close>

datatype call_participants =
  OfCall "GongParticipant list"
| OfTranscript "participant_view list"

record GongCall =
  g_id :: string
  g_title :: string
  g_scheduled :: "string option"
  g_started :: "string option"
  g_duration :: "nat option"
  g_direction :: "string option"
  g_system :: "string option"
  g_scope :: "string option"
  g_media :: "string option"
  g_language :: "string option"
  g_url :: "string option"
  g_hasTranscript :: bool
  g_participants :: call_participants

record GetCallParams =
  gp_callId :: string
  gp_includeTranscript :: "bool option"
  gp_transcriptFormat :: "transcript_format option"
  gp_maxSegments :: "int option"
  gp_maxSentences :: "int option"

record call_result =
  r_call :: GongCall
  r_transcript :: "transcript_result option"

definition formatCall :: "raw_call \<Rightarrow> GongCall" where
  "formatCall call =
     \<lparr>g_id = c_id call,
      g_title = or_else (c_title call) ''Untitled Call'',
      g_scheduled = c_scheduled call,
      g_started = (case truthy (c_started call) of Some s \<Rightarrow> Some s | None \<Rightarrow> c_startTime call),
      g_duration = c_duration call,
      g_direction = c_direction call,
      g_system = c_system call,
      g_scope = c_scope call,
      g_media = c_media call,
      g_language = c_language call,
      g_url = c_url call,
      g_hasTranscript = c_transcript call,
      g_participants = OfCall (case c_participants call of None \<Rightarrow> [] | Some ps \<Rightarrow> ps)\<rparr>"

text \<open>The participants that \<open>getCall\<close> finds in the transcript object, if any.\<close>

definition transcript_participants :: "transcript_result \<Rightarrow> participant_view list option" where
  "transcript_participants t =
     (case t of RawTranscript _ _ \<Rightarrow> None | Formatted ft \<Rightarrow> fc_participants (ft_call ft))"

definition getCall ::
  "runtime \<Rightarrow> (nat \<Rightarrow> gong_api) \<Rightarrow> int \<Rightarrow> GetCallParams \<Rightarrow> world
     \<Rightarrow> (error + call_result) \<times> world" where
  "getCall rt api now params w =
     (case apiClient_getCall api (gp_callId params) w of
        (Inl e, w1) \<Rightarrow> (Inl e, w1)
      | (Inr callResponse, w1) \<Rightarrow>
          (case cr_call callResponse of
             None \<Rightarrow> (Inl TypeError, w1)
           | Some rawCall \<Rightarrow>
               (let call = formatCall rawCall
                in if gp_includeTranscript params = Some True then
                     (case getFormattedTranscript rt api now (gp_callId params)
                             (case gp_transcriptFormat params of None \<Rightarrow> Concise | Some f \<Rightarrow> f)
                             (case gp_maxSegments params of None \<Rightarrow> 0 | Some n \<Rightarrow> n)
                             (case gp_maxSentences params of None \<Rightarrow> 0 | Some n \<Rightarrow> n) w1 of
                        (Inl e, w2) \<Rightarrow> (Inr \<lparr>r_call = call, r_transcript = None\<rparr>, w2)
                      | (Inr transcript, w2) \<Rightarrow>
                          (Inr \<lparr>r_call =
                                  (case transcript_participants transcript of
                                     None \<Rightarrow> call\<lparr>g_hasTranscript := True\<rparr>
                                   | Some ps \<Rightarrow>
                                       call\<lparr>g_hasTranscript := True,
                                            g_participants := OfTranscript ps\<rparr>),
                                r_transcript = Some transcript\<rparr>, w2))
                   else (Inr \<lparr>r_call = call, r_transcript = None\<rparr>, w1))))"

section \<open>Notions of the specification\<close>

text \<open>
  The flattening of a formatted transcript: the texts of all exchanges, in section order,
  then exchange order.
\<close>

definition flatten_texts :: "transcript_section list \<Rightarrow> string list" where
  "flatten_texts secs = concat (map (\<lambda>sec. map ex_text (sec_exchanges sec)) secs)"

text \<open>
  The original chronological text of a transcript, filtered only by the truncation of
  \<open>maxSegments\<close> and \<open>maxSentences\<close>: one text for each segment, in the order of the
  source array.
\<close>

definition segment_text :: "int \<Rightarrow> GongTranscriptSegment \<Rightarrow> string" where
  "segment_text maxSentences segment =
     join '' '' (map sen_text (limit maxSentences (sentences segment)))"

definition original_texts :: "int \<Rightarrow> int \<Rightarrow> GongTranscriptSegment list \<Rightarrow> string list" where
  "original_texts maxSegments maxSentences transcripts =
     map (segment_text maxSentences) (limit maxSegments transcripts)"

text \<open>The sections of a formatted result; none for a failure or a raw result.\<close>

definition sections_of :: "error + transcript_result \<Rightarrow> transcript_section list" where
  "sections_of r = (case r of Inr (Formatted ft) \<Rightarrow> ft_sections ft | _ \<Rightarrow> [])"

text \<open>The speaker that the formatter shows for an id that the speaker map does not know.\<close>

definition unknown_speaker :: "string \<Rightarrow> speaker_view" where
  "unknown_speaker i =
     \<lparr>sv_name = ''Speaker '' @ take 8 i, sv_company = Some ''Unknown'',
      sv_role = Some ''Unknown''\<rparr>"

section \<open>Example inputs\<close>

text \<open>A platform that answers every request with an error.\<close>

definition failing_api :: gong_api where
  "failing_api =
     \<lparr>api_getCall = (\<lambda>_. Inl (ApiError ''503'')),
      api_getTranscripts = (\<lambda>_. Inl (ApiError ''503'')),
      api_getAllUsers = Inl (ApiError ''503'')\<rparr>"

definition platform_down :: "nat \<Rightarrow> gong_api" where
  "platform_down n = failing_api"

text \<open>A platform whose user directory is empty.\<close>

definition empty_directory :: "nat \<Rightarrow> gong_api" where
  "empty_directory n = failing_api\<lparr>api_getAllUsers := Inr []\<rparr>"

definition title_missing :: raw_user where
  "title_missing =
     \<lparr>ru_id = ''u1'', ru_firstName = None, ru_lastName = None, ru_emailAddress = None,
      ru_email = None, ru_title = None, ru_role = Some ''CEO'', ru_active = None,
      ru_created = None\<rparr>"

definition alice_raw :: raw_user where
  "alice_raw =
     \<lparr>ru_id = ''u1'', ru_firstName = Some ''Alice'', ru_lastName = Some ''Smith'',
      ru_emailAddress = Some ''alice@example.com'', ru_email = None, ru_title = None,
      ru_role = None, ru_active = None, ru_created = None\<rparr>"

definition bob_raw :: raw_user where
  "bob_raw =
     \<lparr>ru_id = ''u2'', ru_firstName = Some ''Bob'', ru_lastName = Some ''Lee'',
      ru_emailAddress = Some ''bob@example.com'', ru_email = None, ru_title = None,
      ru_role = None, ru_active = None, ru_created = None\<rparr>"

definition two_users :: "nat \<Rightarrow> gong_api" where
  "two_users n = failing_api\<lparr>api_getAllUsers := Inr [alice_raw, bob_raw]\<rparr>"

text \<open>The state after the directory of \<open>two_users\<close> was loaded at time 1000.\<close>

definition loaded_world :: world where
  "loaded_world =
     \<lparr>userCache = [(''u1'', processUser alice_raw), (''u2'', processUser bob_raw)],
      lastCacheUpdate = 1000, api_log = [GetAllUsers]\<rparr>"

definition bare_call :: "string \<Rightarrow> raw_call" where
  "bare_call i =
     \<lparr>c_id = i, c_title = None, c_scheduled = None, c_started = None, c_startTime = None,
      c_duration = None, c_direction = None, c_system = None, c_scope = None, c_media = None,
      c_language = None, c_url = None, c_transcript = False, c_participants = None\<rparr>"

definition dated_call :: raw_call where
  "dated_call =
     (bare_call ''c1'')\<lparr>c_startTime := Some ''2024-03-01T10:00:00.000Z'', c_duration := Some 125\<rparr>"

text \<open>
  A call whose transcript, sent as \<open>callTranscripts[0].transcript\<close>, has one segment of
  the speaker \<open>zz9\<close>, who is neither a participant nor a user of the directory.
\<close>

definition zz9_segment :: GongTranscriptSegment where
  "zz9_segment =
     \<lparr>speakerId = ''zz9'', topic = None, sentences = [\<lparr>sen_start = 0, sen_text = ''hello''\<rparr>]\<rparr>"

definition zz9_response :: transcript_response where
  "zz9_response =
     \<lparr>tr_transcripts = None,
      tr_callTranscripts = Some [\<lparr>ct_transcript = Some [zz9_segment]\<rparr>]\<rparr>"

definition zz9_platform :: "nat \<Rightarrow> gong_api" where
  "zz9_platform n =
     \<lparr>api_getCall = (\<lambda>_. Inr \<lparr>cr_call = Some (bare_call ''c1'')\<rparr>),
      api_getTranscripts = (\<lambda>_. Inr zz9_response),
      api_getAllUsers = Inr []\<rparr>"

text \<open>A platform that knows the call \<open>c1\<close> and fails on its transcript.\<close>

definition transcripts_down :: "nat \<Rightarrow> gong_api" where
  "transcripts_down n = failing_api\<lparr>api_getCall := (\<lambda>_. Inr \<lparr>cr_call = Some dated_call\<rparr>)\<rparr>"

text \<open>A platform that knows the call and its transcript and fails on the directory.\<close>

definition directory_down :: "nat \<Rightarrow> gong_api" where
  "directory_down n =
     \<lparr>api_getCall = (\<lambda>_. Inr \<lparr>cr_call = Some dated_call\<rparr>),
      api_getTranscripts = (\<lambda>_. Inr zz9_response),
      api_getAllUsers = Inl (ApiError ''503'')\<rparr>"

definition with_transcript :: GetCallParams where
  "with_transcript =
     \<lparr>gp_callId = ''c1'', gp_includeTranscript = Some True, gp_transcriptFormat = None,
      gp_maxSegments = None, gp_maxSentences = None\<rparr>"

text \<open>
  A runtime: it knows one date, and compares strings by their code units (the comparison
  of a locale is a parameter of the model; the examples do not depend on this choice
  beyond equal strings comparing equal).
\<close>

fun code_unit_compare :: "string \<Rightarrow> string \<Rightarrow> int" where
  "code_unit_compare [] [] = 0"
| "code_unit_compare [] (b # bs) = - 1"
| "code_unit_compare (a # as) [] = 1"
| "code_unit_compare (a # as) (b # bs) =
     (if (of_char a :: nat) < of_char b then - 1
      else if (of_char b :: nat) < of_char a then 1
      else code_unit_compare as bs)"

definition example_runtime :: runtime where
  "example_runtime =
     \<lparr>rt_toISOString = (\<lambda>s. if s = ''2024-03-01T10:00:00.000Z'' then Some s else None),
      rt_localeCompare = code_unit_compare\<rparr>"

text \<open>A transcript that comes back to the topic of its first segment.\<close>

definition interleaved :: "GongTranscriptSegment list" where
  "interleaved =
     [\<lparr>speakerId = ''s1'', topic = Some ''Pricing'',
       sentences = [\<lparr>sen_start = 0, sen_text = ''a''\<rparr>]\<rparr>,
      \<lparr>speakerId = ''s2'', topic = Some ''Roadmap'',
       sentences = [\<lparr>sen_start = 1000, sen_text = ''b''\<rparr>]\<rparr>,
      \<lparr>speakerId = ''s1'', topic = Some ''Pricing'',
       sentences = [\<lparr>sen_start = 65000, sen_text = ''c''\<rparr>,
                    \<lparr>sen_start = 599999, sen_text = ''d''\<rparr>]\<rparr>]"

definition interleaved_formatted :: FormattedTranscript where
  "interleaved_formatted =
     \<lparr>ft_call =
        \<lparr>fc_id = ''c1'', fc_title = None, fc_date = ''2024-03-01'',
         fc_duration = Some ''2m 5s'', fc_participants = None\<rparr>,
      ft_sections =
        [\<lparr>sec_topic = ''Pricing'', sec_timeRange = ''0:00 - 9:59'',
          sec_exchanges =
            [\<lparr>ex_speaker = unknown_speaker ''s1'', ex_text = ''a'',
              ex_timestamp = Some ''0:00''\<rparr>,
             \<lparr>ex_speaker = unknown_speaker ''s1'', ex_text = ''c d'',
              ex_timestamp = Some ''1:05''\<rparr>]\<rparr>,
         \<lparr>sec_topic = ''Roadmap'', sec_timeRange = ''0:01 - 0:01'',
          sec_exchanges =
            [\<lparr>ex_speaker = unknown_speaker ''s2'', ex_text = ''b'',
              ex_timestamp = Some ''0:01''\<rparr>]\<rparr>]\<rparr>"

section \<open>The user directory cache\<close>

lemmas world_steps =
  getAllUsers_def apiClient_getAllUsers_def apiClient_getCall_def apiClient_getTranscripts_def
  answers_def logged_def initial_world_def

lemma map_set_fresh: "k \<notin> fst ` set m \<Longrightarrow> map_set m k v = m @ [(k, v)]"
  by (induction m) auto

lemma map_set_nonempty: "map_set m k v \<noteq> []"
  by (induction m k v rule: map_set.induct) auto

lemma foldl_map_set_distinct:
  "distinct (map u_id us) \<Longrightarrow> fst ` set m \<inter> u_id ` set us = {} \<Longrightarrow>
   foldl (\<lambda>m user. map_set m (u_id user) user) m us = m @ map (\<lambda>u. (u_id u, u)) us"
proof (induction us arbitrary: m)
  case Nil
  then show ?case by simp
next
  case (Cons u us)
  have fresh: "u_id u \<notin> fst ` set m"
    using Cons.prems(2) by auto
  have "foldl (\<lambda>m user. map_set m (u_id user) user) (m @ [(u_id u, u)]) us =
          (m @ [(u_id u, u)]) @ map (\<lambda>u. (u_id u, u)) us"
    using Cons.prems by (intro Cons.IH) auto
  then show ?case
    by (simp add: map_set_fresh[OF fresh])
qed

lemma fill_cache_values: "distinct (map u_id us) \<Longrightarrow> map snd (fill_cache us) = us"
  by (simp add: fill_cache_def foldl_map_set_distinct comp_def)

lemma foldl_map_set_nonempty:
  "m \<noteq> [] \<Longrightarrow> foldl (\<lambda>m user. map_set m (u_id user) (user::GongUser)) m us \<noteq> []"
  by (induction us arbitrary: m) (auto simp: map_set_nonempty)

lemma fill_cache_empty_iff: "(fill_cache us = []) = (us = [])"
  by (cases us) (auto simp: fill_cache_def foldl_map_set_nonempty map_set_nonempty)

lemma getAllUsers_fails:
  "userCache w = [] \<or> cacheExpiryMs \<le> now - lastCacheUpdate w \<Longrightarrow>
   api_getAllUsers (answers api w) = Inl e \<Longrightarrow>
   fst (getAllUsers api now False w) = Inl e"
  by (auto simp: getAllUsers_def apiClient_getAllUsers_def)

text \<open>
  Claim C7, as amended. Normalization of a raw user record: \<open>firstName\<close>, \<open>lastName\<close>
  and \<open>created\<close> default to the empty string when missing; \<open>emailAddress\<close> falls back
  to the \<open>email\<close> field, else to the empty string; \<open>title\<close> falls back to the \<open>role\<close>
  field, else to the empty string; \<open>active\<close> is true unless the raw field is \<open>false\<close>.
\<close>

theorem processUser_normalizes:
  "u_id (processUser r) = ru_id r \<and>
   u_firstName (processUser r) = (case ru_firstName r of None \<Rightarrow> [] | Some s \<Rightarrow> s) \<and>
   u_lastName (processUser r) = (case ru_lastName r of None \<Rightarrow> [] | Some s \<Rightarrow> s) \<and>
   u_emailAddress (processUser r) =
     (case truthy (ru_emailAddress r) of
        Some s \<Rightarrow> s
      | None \<Rightarrow> (case ru_email r of None \<Rightarrow> [] | Some e \<Rightarrow> e)) \<and>
   u_title (processUser r) =
     (case truthy (ru_title r) of
        Some s \<Rightarrow> s
      | None \<Rightarrow> (case ru_role r of None \<Rightarrow> [] | Some e \<Rightarrow> e)) \<and>
   u_active (processUser r) = (ru_active r \<noteq> Some False) \<and>
   u_created (processUser r) = (case ru_created r of None \<Rightarrow> [] | Some s \<Rightarrow> s)"
  by (simp add: processUser_def or_else_def truthy_def split: option.splits)

text \<open>
  Claim C7 as stated fails: a record without a title and with a role gets the role as its
  title, not the empty string.
\<close>

theorem processUser_title_from_role:
  "ru_title title_missing = None \<and> u_title (processUser title_missing) = ''CEO''"
  by (simp add: title_missing_def processUser_def or_else_def)

text \<open>
  Claim C6, as amended. The TTL is 3,600,000 ms. When the cached snapshot is not empty
  and younger than the TTL, \<open>getAllUsers(false)\<close> returns the snapshot and sends no
  request. With \<open>forceRefresh\<close>, or once the TTL has passed, it sends exactly one request;
  when the platform answers, the result is the normalized answer, the cache is replaced by
  it and the time is recorded; and if that answer is not empty and its ids are distinct, a
  later \<open>getAllUsers(false)\<close> within the TTL returns the same users, whatever the
  platform would answer then, and sends no request.
\<close>

theorem getAllUsers_cache_ttl:
  "cacheExpiryMs = 3600000 \<and>
   (userCache w \<noteq> [] \<and> now - lastCacheUpdate w < cacheExpiryMs \<longrightarrow>
      getAllUsers api now False w = (Inr (map snd (userCache w)), w)) \<and>
   (forceRefresh \<or> cacheExpiryMs \<le> now - lastCacheUpdate w \<longrightarrow>
      api_log (snd (getAllUsers api now forceRefresh w)) = api_log w @ [GetAllUsers] \<and>
      (\<forall>raw. api_getAllUsers (answers api w) = Inr raw \<longrightarrow>
         getAllUsers api now forceRefresh w =
           (Inr (map processUser raw),
            \<lparr>userCache = fill_cache (map processUser raw), lastCacheUpdate = now,
             api_log = api_log w @ [GetAllUsers]\<rparr>) \<and>
         (raw \<noteq> [] \<and> distinct (map ru_id raw) \<and> later - now < cacheExpiryMs \<longrightarrow>
            getAllUsers api' later False (snd (getAllUsers api now forceRefresh w)) =
              (Inr (map processUser raw), snd (getAllUsers api now forceRefresh w)))))"
proof (intro conjI impI allI)
  show "cacheExpiryMs = 3600000"
    by (simp add: cacheExpiryMs_def)
next
  assume "userCache w \<noteq> [] \<and> now - lastCacheUpdate w < cacheExpiryMs"
  then show "getAllUsers api now False w = (Inr (map snd (userCache w)), w)"
    by (simp add: getAllUsers_def)
next
  assume "forceRefresh \<or> cacheExpiryMs \<le> now - lastCacheUpdate w"
  then show "api_log (snd (getAllUsers api now forceRefresh w)) = api_log w @ [GetAllUsers]"
    by (auto simp: getAllUsers_def apiClient_getAllUsers_def logged_def Let_def
        split: sum.splits)
next
  fix raw
  assume stale: "forceRefresh \<or> cacheExpiryMs \<le> now - lastCacheUpdate w"
    and answer: "api_getAllUsers (answers api w) = Inr raw"
  then show refreshed: "getAllUsers api now forceRefresh w =
           (Inr (map processUser raw),
            \<lparr>userCache = fill_cache (map processUser raw), lastCacheUpdate = now,
             api_log = api_log w @ [GetAllUsers]\<rparr>)"
    by (auto simp: getAllUsers_def apiClient_getAllUsers_def logged_def Let_def)
  assume fresh: "raw \<noteq> [] \<and> distinct (map ru_id raw) \<and> later - now < cacheExpiryMs"
  have "map u_id (map processUser raw) = map ru_id raw"
    by (simp add: processUser_def comp_def)
  then have "distinct (map u_id (map processUser raw))"
    using fresh by (simp only:)
  then have vals: "map snd (fill_cache (map processUser raw)) = map processUser raw"
    by (rule fill_cache_values)
  have nonempty: "fill_cache (map processUser raw) \<noteq> []"
    using fresh by (simp add: fill_cache_empty_iff)
  show "getAllUsers api' later False (snd (getAllUsers api now forceRefresh w)) =
              (Inr (map processUser raw), snd (getAllUsers api now forceRefresh w))"
    unfolding refreshed using vals nonempty fresh by (simp add: getAllUsers_def)
qed

theorem getAllUsers_cache_ttl_witness:
  "userCache loaded_world \<noteq> [] \<and> 2000 - lastCacheUpdate loaded_world < cacheExpiryMs \<and>
   getAllUsers platform_down 2000 False loaded_world =
     (Inr [processUser alice_raw, processUser bob_raw], loaded_world) \<and>
   cacheExpiryMs \<le> 3601000 - lastCacheUpdate loaded_world \<and>
   api_getAllUsers (answers two_users loaded_world) = Inr [alice_raw, bob_raw] \<and>
   api_log (snd (getAllUsers two_users 3601000 False loaded_world)) = [GetAllUsers, GetAllUsers] \<and>
   getAllUsers platform_down 3602000 False (snd (getAllUsers two_users 3601000 False loaded_world)) =
     (Inr [processUser alice_raw, processUser bob_raw],
      snd (getAllUsers two_users 3601000 False loaded_world))"
proof -
  have hit: "userCache loaded_world \<noteq> [] \<and> 2000 - lastCacheUpdate loaded_world < cacheExpiryMs"
    by (simp add: loaded_world_def cacheExpiryMs_def)
  have stale: "cacheExpiryMs \<le> 3601000 - lastCacheUpdate loaded_world"
    by (simp add: loaded_world_def cacheExpiryMs_def)
  have answer: "api_getAllUsers (answers two_users loaded_world) = Inr [alice_raw, bob_raw]"
    by (simp add: answers_def two_users_def)
  have fresh: "[alice_raw, bob_raw] \<noteq> [] \<and> distinct (map ru_id [alice_raw, bob_raw]) \<and>
      (3602000::int) - 3601000 < cacheExpiryMs"
    by (simp add: alice_raw_def bob_raw_def cacheExpiryMs_def)
  have snapshot: "map snd (userCache loaded_world) = [processUser alice_raw, processUser bob_raw]"
    by (simp add: loaded_world_def)
  have log: "api_log loaded_world @ [GetAllUsers] = [GetAllUsers, GetAllUsers]"
    by (simp add: loaded_world_def)
  have served: "getAllUsers platform_down 2000 False loaded_world =
      (Inr (map snd (userCache loaded_world)), loaded_world)"
    using getAllUsers_cache_ttl [of loaded_world 2000 platform_down] hit by blast
  note refetch = getAllUsers_cache_ttl [of loaded_world 3601000 two_users False 3602000 platform_down]
  have once: "api_log (snd (getAllUsers two_users 3601000 False loaded_world)) =
      api_log loaded_world @ [GetAllUsers]"
    using refetch stale by blast
  have again: "getAllUsers platform_down 3602000 False
        (snd (getAllUsers two_users 3601000 False loaded_world)) =
      (Inr (map processUser [alice_raw, bob_raw]),
       snd (getAllUsers two_users 3601000 False loaded_world))"
    using refetch stale answer fresh by blast
  show ?thesis
    using hit stale answer served [unfolded snapshot] once [unfolded log] again
    by (simp del: distinct.simps)
qed

text \<open>
  Claim C6 as stated fails when the refresh stored no user: the second call, one
  millisecond after the first, sends a second request.
\<close>

theorem empty_snapshot_refetched_within_ttl:
  "lastCacheUpdate (snd (getAllUsers empty_directory 1000 False initial_world)) = 1000 \<and>
   1001 - lastCacheUpdate (snd (getAllUsers empty_directory 1000 False initial_world))
     < cacheExpiryMs \<and>
   api_log (snd (getAllUsers empty_directory 1000 False initial_world)) = [GetAllUsers] \<and>
   api_log (snd (getAllUsers empty_directory 1001 False
                  (snd (getAllUsers empty_directory 1000 False initial_world))))
     = [GetAllUsers, GetAllUsers]"
  by (simp add: world_steps empty_directory_def failing_api_def fill_cache_def
      cacheExpiryMs_def)

text \<open>
  Claim C10. If a refresh stored zero users, the cache is empty afterwards and every later
  \<open>getAllUsers(false)\<close> sends a request to the platform, at any time, also within the
  TTL: an empty snapshot is never served from the cache.
\<close>

theorem empty_directory_never_cached:
  assumes "api_getAllUsers (answers api w) = Inr []"
    and "forceRefresh \<or> userCache w = [] \<or> cacheExpiryMs \<le> refreshed - lastCacheUpdate w"
  shows "userCache (snd (getAllUsers api refreshed forceRefresh w)) = [] \<and>
         lastCacheUpdate (snd (getAllUsers api refreshed forceRefresh w)) = refreshed \<and>
         api_log (snd (getAllUsers api' now False (snd (getAllUsers api refreshed forceRefresh w))))
           = api_log (snd (getAllUsers api refreshed forceRefresh w)) @ [GetAllUsers]"
proof -
  have refresh: "getAllUsers api refreshed forceRefresh w =
      (Inr [], \<lparr>userCache = [], lastCacheUpdate = refreshed,
                api_log = api_log w @ [GetAllUsers]\<rparr>)"
    using assms
    by (auto simp: getAllUsers_def apiClient_getAllUsers_def logged_def Let_def fill_cache_def)
  show ?thesis
    unfolding refresh
    by (auto simp: getAllUsers_def apiClient_getAllUsers_def logged_def Let_def
        split: sum.splits)
qed

theorem empty_directory_never_cached_witness:
  "api_getAllUsers (answers empty_directory initial_world) = Inr [] \<and>
   userCache initial_world = [] \<and>
   userCache (snd (getAllUsers empty_directory 5000 False initial_world)) = [] \<and>
   lastCacheUpdate (snd (getAllUsers empty_directory 5000 False initial_world)) = 5000 \<and>
   api_log (snd (getAllUsers two_users 5001 False
                   (snd (getAllUsers empty_directory 5000 False initial_world))))
     = api_log (snd (getAllUsers empty_directory 5000 False initial_world)) @ [GetAllUsers]"
proof -
  have answer: "api_getAllUsers (answers empty_directory initial_world) = Inr []"
    by (simp add: answers_def empty_directory_def)
  have empty: "userCache initial_world = []"
    by (simp add: initial_world_def)
  then have stale: "False \<or> userCache initial_world = [] \<or>
      cacheExpiryMs \<le> 5000 - lastCacheUpdate initial_world"
    by simp
  show ?thesis
    using empty_directory_never_cached [OF answer stale, of two_users 5001] answer empty
    by simp
qed

section \<open>Finding users\<close>

text \<open>
  Claim C3, as amended. Once the directory is loaded: if an id is supplied and is a key of
  the cache, the result is that one user (the short-circuit); otherwise every user of the
  directory is in the result whenever its id is the supplied id, or a name is supplied and
  matches it (a substring of the full name, or a token of the name a substring of the
  first or the last name, case-insensitive), or no name is supplied and the supplied
  email matches it (a case-insensitive substring). Nothing is said of an email match when
  a name is supplied too.
\<close>

theorem findUsers_includes_matches:
  assumes "getAllUsers api now False w = (Inr allUsers, w1)"
  shows "(\<forall>i u. truthy ident = Some i \<and> map_of (userCache w1) i = Some u \<longrightarrow>
            findUsers api now name email ident w = (Inr [u], w1)) \<and>
         ((case truthy ident of None \<Rightarrow> True | Some i \<Rightarrow> map_of (userCache w1) i = None) \<longrightarrow>
            (\<exists>res. findUsers api now name email ident w = (Inr res, w1) \<and>
               (\<forall>u \<in> set allUsers.
                  (truthy ident = Some (u_id u) \<or>
                   (\<exists>n. truthy name = Some n \<and> name_matches n u) \<or>
                   (truthy name = None \<and> (\<exists>e. truthy email = Some e \<and> email_matches e u)))
                  \<longrightarrow> u \<in> set res)))"
  using assms
  by (auto simp: findUsers_def user_filter_def split: option.splits)

lemmas find_steps =
  findUsers_def user_filter_def name_matches_def email_matches_def truthy_def toLowerCase_def
  lower_char_def processUser_def or_else_def fill_cache_def two_users_def failing_api_def
  alice_raw_def bob_raw_def

lemma two_users_loaded:
  "getAllUsers two_users 1000 False initial_world =
     (Inr [processUser alice_raw, processUser bob_raw], loaded_world)"
  by (simp add: world_steps loaded_world_def two_users_def fill_cache_def processUser_def
      alice_raw_def bob_raw_def)

theorem findUsers_includes_matches_witness:
  "getAllUsers two_users 1000 False initial_world =
     (Inr [processUser alice_raw, processUser bob_raw], loaded_world) \<and>
   truthy (Some ''BOB@'') = Some ''BOB@'' \<and> email_matches ''BOB@'' (processUser bob_raw) \<and>
   (\<exists>res. findUsers two_users 1000 None (Some ''BOB@'') None initial_world = (Inr res, loaded_world) \<and>
          processUser bob_raw \<in> set res) \<and>
   map_of (userCache loaded_world) ''u1'' = Some (processUser alice_raw) \<and>
   findUsers two_users 1000 (Some ''bob'') None (Some ''u1'') initial_world =
     (Inr [processUser alice_raw], loaded_world)"
proof -
  have email: "truthy (Some ''BOB@'') = Some ''BOB@'' \<and> email_matches ''BOB@'' (processUser bob_raw)"
    by (simp add: find_steps)
  have key: "truthy (Some ''u1'') = Some ''u1'' \<and>
      map_of (userCache loaded_world) ''u1'' = Some (processUser alice_raw)"
    by (simp add: truthy_def loaded_world_def)
  have scan: "\<exists>res. findUsers two_users 1000 None (Some ''BOB@'') None initial_world =
        (Inr res, loaded_world) \<and> processUser bob_raw \<in> set res"
    using findUsers_includes_matches [OF two_users_loaded, of None None "Some ''BOB@''"] email
    by (auto simp: truthy_def)
  have short: "findUsers two_users 1000 (Some ''bob'') None (Some ''u1'') initial_world =
     (Inr [processUser alice_raw], loaded_world)"
    using findUsers_includes_matches [OF two_users_loaded, of "Some ''u1''" "Some ''bob''" None] key
    by blast
  show ?thesis
    using two_users_loaded email scan key short by blast
qed

text \<open>
  Claim C3 as stated fails by the short-circuit: the id \<open>u1\<close> and the name \<open>bob\<close> are
  supplied, Bob matches the name, and the result is Alice alone.
\<close>

theorem findUsers_id_short_circuit_drops_name_match:
  "fst (findUsers two_users 1000 (Some ''bob'') None (Some ''u1'') initial_world)
     = Inr [processUser alice_raw] \<and>
   processUser bob_raw \<noteq> processUser alice_raw \<and>
   name_matches ''bob'' (processUser bob_raw)"
  by (simp add: world_steps find_steps)

text \<open>
  The filter returns the verdict of the name as soon as a name is supplied, and never
  reaches the email: a user that only the email matches is left out.
\<close>

lemma findUsers_name_hides_email_match:
  "fst (findUsers two_users 1000 (Some ''zed'') (Some ''BOB@'') None initial_world) = Inr [] \<and>
   email_matches ''BOB@'' (processUser bob_raw)"
  by (simp add: world_steps find_steps)

section \<open>The speaker resolver\<close>

lemma fetch_callDetails_frame:
  "fetch_callDetails api callId cd w = (r, w1) \<Longrightarrow>
   userCache w1 = userCache w \<and> lastCacheUpdate w1 = lastCacheUpdate w"
  by (auto simp: fetch_callDetails_def apiClient_getCall_def logged_def
      split: option.splits sum.splits)

lemma fetch_callDetails_fails:
  "api_getCall (answers api w) callId = Inl e \<Longrightarrow>
   fst (fetch_callDetails api callId None w) = Inl e"
  by (simp add: fetch_callDetails_def apiClient_getCall_def)

lemma resolve_fails_transcripts:
  "api_getTranscripts (answers api w1) [callId] = Inl e \<Longrightarrow>
   fst (resolve_transcript_speakers api now callId sm w1) = Inl e"
  by (simp add: resolve_transcript_speakers_def apiClient_getTranscripts_def)

lemma resolve_fails_users:
  assumes "userCache w1 = [] \<or> cacheExpiryMs \<le> now - lastCacheUpdate w1"
    and "\<forall>n. \<exists>e. api_getAllUsers (api n) = Inl e"
  shows "\<exists>e. fst (resolve_transcript_speakers api now callId sm w1) = Inl e"
proof (cases "api_getTranscripts (answers api w1) [callId]")
  case (Inl e)
  then show ?thesis
    using resolve_fails_transcripts by blast
next
  case (Inr response)
  let ?w2 = "logged (GetTranscripts [callId]) w1"
  obtain e where e: "api_getAllUsers (answers api ?w2) = Inl e"
    using assms(2) unfolding answers_def by blast
  have "userCache ?w2 = [] \<or> cacheExpiryMs \<le> now - lastCacheUpdate ?w2"
    using assms(1) by (simp add: logged_def)
  from getAllUsers_fails [OF this e] have "fst (getAllUsers api now False ?w2) = Inl e" .
  then show ?thesis
    using Inr
    by (cases "getAllUsers api now False ?w2")
       (auto simp: resolve_transcript_speakers_def apiClient_getTranscripts_def Let_def)
qed

lemma try_fetch_fails:
  "fst (fetch_callDetails api callId cd w) = Inl e \<Longrightarrow>
   fst (getSpeakerMap_try api now callId cd w) = Inl e"
  by (cases "fetch_callDetails api callId cd w") (auto simp: getSpeakerMap_try_def)

lemma try_fetch_ok:
  "fetch_callDetails api callId cd w = (Inr cd', w1) \<Longrightarrow>
   getSpeakerMap_try api now callId cd w =
     resolve_transcript_speakers api now callId (seed_participants (participants_of cd')) w1"
  by (simp add: getSpeakerMap_try_def)

lemma catch_empty:
  "fst (getSpeakerMap_try api now callId cd w) = Inl e \<Longrightarrow>
   fst (getSpeakerMap api now callId cd w) = Inr Map.empty"
  by (cases "getSpeakerMap_try api now callId cd w") (auto simp: getSpeakerMap_def)

text \<open>
  Claim C2. \<open>getSpeakerMap\<close> never throws: for every input and every platform it returns
  a speaker map. Whenever the body of its \<open>try\<close> block throws, the map is empty; in
  particular when the call is not supplied and \<open>getCall\<close> fails, when \<open>getTranscripts\<close>
  fails, and when the directory has to be fetched and \<open>getAllUsers\<close> fails.
\<close>

theorem getSpeakerMap_never_throws:
  "(\<exists>m w'. getSpeakerMap api now callId callDetails w = (Inr m, w')) \<and>
   (\<forall>e w'. getSpeakerMap_try api now callId callDetails w = (Inl e, w') \<longrightarrow>
       getSpeakerMap api now callId callDetails w = (Inr Map.empty, w')) \<and>
   (callDetails = None \<and> (\<forall>n. \<exists>e. api_getCall (api n) callId = Inl e) \<longrightarrow>
       fst (getSpeakerMap api now callId callDetails w) = Inr Map.empty) \<and>
   ((\<forall>n. \<exists>e. api_getTranscripts (api n) [callId] = Inl e) \<longrightarrow>
       fst (getSpeakerMap api now callId callDetails w) = Inr Map.empty) \<and>
   ((userCache w = [] \<or> cacheExpiryMs \<le> now - lastCacheUpdate w) \<and>
    (\<forall>n. \<exists>e. api_getAllUsers (api n) = Inl e) \<longrightarrow>
       fst (getSpeakerMap api now callId callDetails w) = Inr Map.empty)"
proof (intro conjI impI allI)
  show "\<exists>m w'. getSpeakerMap api now callId callDetails w = (Inr m, w')"
    by (cases "getSpeakerMap_try api now callId callDetails w")
       (auto simp: getSpeakerMap_def split: sum.splits)
next
  fix e w'
  assume "getSpeakerMap_try api now callId callDetails w = (Inl e, w')"
  then show "getSpeakerMap api now callId callDetails w = (Inr Map.empty, w')"
    by (simp add: getSpeakerMap_def)
next
  assume a: "callDetails = None \<and> (\<forall>n. \<exists>e. api_getCall (api n) callId = Inl e)"
  then obtain e where "api_getCall (answers api w) callId = Inl e"
    unfolding answers_def by blast
  then have "fst (getSpeakerMap_try api now callId None w) = Inl e"
    by (intro try_fetch_fails fetch_callDetails_fails)
  then show "fst (getSpeakerMap api now callId callDetails w) = Inr Map.empty"
    using a catch_empty by simp
next
  assume a: "\<forall>n. \<exists>e. api_getTranscripts (api n) [callId] = Inl e"
  obtain r w1 where f: "fetch_callDetails api callId callDetails w = (r, w1)"
    by (cases "fetch_callDetails api callId callDetails w")
  have "\<exists>e. fst (getSpeakerMap_try api now callId callDetails w) = Inl e"
  proof (cases r)
    case (Inl e)
    then show ?thesis
      using f try_fetch_fails [of api callId callDetails w e] by auto
  next
    case (Inr cd')
    obtain e where "api_getTranscripts (answers api w1) [callId] = Inl e"
      using a unfolding answers_def by blast
    then show ?thesis
      using f Inr resolve_fails_transcripts by (auto simp: try_fetch_ok)
  qed
  then show "fst (getSpeakerMap api now callId callDetails w) = Inr Map.empty"
    using catch_empty by blast
next
  assume a: "(userCache w = [] \<or> cacheExpiryMs \<le> now - lastCacheUpdate w) \<and>
             (\<forall>n. \<exists>e. api_getAllUsers (api n) = Inl e)"
  obtain r w1 where f: "fetch_callDetails api callId callDetails w = (r, w1)"
    by (cases "fetch_callDetails api callId callDetails w")
  have "\<exists>e. fst (getSpeakerMap_try api now callId callDetails w) = Inl e"
  proof (cases r)
    case (Inl e)
    then show ?thesis
      using f try_fetch_fails [of api callId callDetails w e] by auto
  next
    case (Inr cd')
    have "userCache w1 = [] \<or> cacheExpiryMs \<le> now - lastCacheUpdate w1"
      using a fetch_callDetails_frame [OF f] by simp
    then show ?thesis
      using f Inr a resolve_fails_users by (auto simp: try_fetch_ok)
  qed
  then show "fst (getSpeakerMap api now callId callDetails w) = Inr Map.empty"
    using catch_empty by blast
qed

theorem getSpeakerMap_never_throws_witness:
  "(\<forall>n. \<exists>e. api_getCall (platform_down n) ''c1'' = Inl e) \<and>
   (\<forall>n. \<exists>e. api_getTranscripts (platform_down n) [''c1''] = Inl e) \<and>
   userCache initial_world = [] \<and>
   (\<forall>n. \<exists>e. api_getAllUsers (directory_down n) = Inl e) \<and>
   fst (getSpeakerMap platform_down 1000 ''c1'' None initial_world) = Inr Map.empty \<and>
   fst (getSpeakerMap platform_down 1000 ''c1'' (Some dated_call) initial_world) = Inr Map.empty \<and>
   fst (getSpeakerMap directory_down 1000 ''c1'' None initial_world) = Inr Map.empty"
proof -
  have calls: "\<forall>n. \<exists>e. api_getCall (platform_down n) ''c1'' = Inl e"
    by (simp add: platform_down_def failing_api_def)
  have transcripts: "\<forall>n. \<exists>e. api_getTranscripts (platform_down n) [''c1''] = Inl e"
    by (simp add: platform_down_def failing_api_def)
  have users: "\<forall>n. \<exists>e. api_getAllUsers (directory_down n) = Inl e"
    by (simp add: directory_down_def)
  have empty: "userCache initial_world = []"
    by (simp add: initial_world_def)
  have "fst (getSpeakerMap platform_down 1000 ''c1'' None initial_world) = Inr Map.empty"
    using getSpeakerMap_never_throws [of platform_down 1000 "''c1''" None initial_world] calls
    by blast
  moreover
  have "fst (getSpeakerMap platform_down 1000 ''c1'' (Some dated_call) initial_world)
      = Inr Map.empty"
    using getSpeakerMap_never_throws [of platform_down 1000 "''c1''" "Some dated_call"
        initial_world] transcripts
    by blast
  moreover
  have "fst (getSpeakerMap directory_down 1000 ''c1'' None initial_world) = Inr Map.empty"
    using getSpeakerMap_never_throws [of directory_down 1000 "''c1''" None initial_world]
      users empty
    by blast
  ultimately show ?thesis
    using calls transcripts users empty by blast
qed

text \<open>
  What the resolver does with the speaker ids it collects: each is a key of the result,
  and one that neither the participants nor the directory resolve is mapped to the
  placeholder. The ids are collected from the field \<open>transcripts\<close> of the answer.
\<close>

lemma foldl_add_placeholder:
  "foldl add_placeholder m ids i =
     (case m i of
        Some v \<Rightarrow> Some v
      | None \<Rightarrow> if i \<in> set ids then Some (placeholder_speaker i) else None)"
  by (induction ids arbitrary: m) (auto simp: add_placeholder_def split: option.splits)

lemma set_collect_speaker_ids:
  "set (collect_speaker_ids segs) = {i. i \<noteq> [] \<and> i \<in> speakerId ` set segs}"
  by (induction segs rule: rev_induct) (auto simp: collect_speaker_ids_def)

lemma foldl_lookup_missing_unresolved:
  "map_of c i = None \<Longrightarrow> um i = None \<Longrightarrow> foldl (lookup_missing c um) m ids i = m i"
  by (induction ids arbitrary: m) (auto simp: lookup_missing_def split: option.splits)

lemma fill_gaps_total: "i \<in> set ids \<Longrightarrow> i \<in> dom (fill_gaps c us sm ids)"
  by (auto simp: fill_gaps_def Let_def foldl_add_placeholder split: option.splits)

lemma fill_gaps_placeholder:
  "i \<in> set ids \<Longrightarrow> sm i = None \<Longrightarrow> map_of c i = None \<Longrightarrow> make_userMap us i = None \<Longrightarrow>
   fill_gaps c us sm ids i = Some (placeholder_speaker i)"
  by (simp add: fill_gaps_def Let_def foldl_add_placeholder foldl_lookup_missing_unresolved)

lemma placeholder_speaker_zz9:
  "placeholder_speaker ''zz9'' =
     \<lparr>s_id = ''zz9'', s_name = ''Person zz9'', s_email = None, s_role = None,
      s_company = Some ''Unknown''\<rparr>"
  by (simp add: placeholder_speaker_def substring0_def)

lemma speakers_under_transcripts_resolved:
  assumes "resolve_transcript_speakers api now callId sm w1 = (Inr m, w3)"
    and "api_getTranscripts (answers api w1) [callId] = Inr response"
    and "tr_transcripts response = Some segs"
    and "seg \<in> set segs" and "speakerId seg \<noteq> []"
  shows "speakerId seg \<in> dom m"
proof -
  have "speakerId seg \<in> set (collect_speaker_ids segs)"
    using assms(4,5) by (simp add: set_collect_speaker_ids)
  then have "speakerId seg \<in> dom (fill_gaps c us sm (collect_speaker_ids segs))" for c us
    by (rule fill_gaps_total)
  then show ?thesis
    using assms(1,2,3)
    by (auto simp: resolve_transcript_speakers_def apiClient_getTranscripts_def Let_def dom_def
        split: sum.splits prod.splits)
qed

text \<open>
  Claim C1 fails on the code. The platform sends the segments of a call as
  \<open>callTranscripts[0].transcript\<close>, where \<open>getRawTranscript\<close> and
  \<open>getFormattedTranscript\<close> read them; \<open>getSpeakerMap\<close> reads \<open>transcripts\<close>, finds
  nothing there and collects no speaker id. For the call \<open>c1\<close> of \<open>zz9_platform\<close> the
  formatter sees a segment of the speaker \<open>zz9\<close> and the speaker map is empty: \<open>zz9\<close>
  is not a key, and no placeholder is made.
\<close>

theorem getSpeakerMap_misses_transcript_speakers:
  "api_getTranscripts (answers zz9_platform initial_world) [''c1''] = Inr zz9_response \<and>
   extract_transcript zz9_response = [zz9_segment] \<and>
   speakerId zz9_segment = ''zz9'' \<and>
   fst (getSpeakerMap zz9_platform 1000 ''c1'' None initial_world) = Inr Map.empty"
  by (simp add: extract_transcript_def zz9_response_def zz9_segment_def getSpeakerMap_def
      getSpeakerMap_try_def fetch_callDetails_def participants_of_def
      resolve_transcript_speakers_def fill_gaps_def world_steps zz9_platform_def bare_call_def
      seed_participants_def collect_speaker_ids_def make_userMap_def fill_cache_def)

section \<open>The transcript formatter\<close>

text \<open>The time format on the examples of the specification.\<close>

lemma formatMilliseconds_examples:
  "formatMilliseconds (Num 0) = ''0:00'' \<and> formatMilliseconds (Num 65000) = ''1:05'' \<and>
   formatMilliseconds (Num 599999) = ''9:59''"
  by (simp add: string_of_nat.simps padStart2_def digit_char_def)

lemma limit_map: "limit n (map f xs) = map f (limit n xs)"
  by (simp add: limit_def take_map)

lemma ex_text_make_exchange: "ex_text (make_exchange mx sm seg) = segment_text mx seg"
  by (simp add: make_exchange_def processSegment_def segment_text_def Let_def limit_map comp_def)

lemma mset_insert_section: "mset (insert_section rt a bs) = {#a#} + mset bs"
  by (induction bs) auto

lemma mset_sort_sections: "mset (sort_sections rt secs) = mset secs"
  by (induction secs) (auto simp: sort_sections_def mset_insert_section)

lemma set_sort_sections: "set (sort_sections rt secs) = set secs"
  by (metis mset_sort_sections set_mset_mset)

lemma mset_object_entries: "mset (object_entries obj) = mset obj"
  by (simp add: object_entries_def)

lemma set_object_entries: "set (object_entries obj) = set obj"
  by (metis mset_object_entries set_mset_mset)

lemma mset_concat_push_group:
  "mset (concat (map snd (push_group G t x))) = mset (concat (map snd G)) + {#x#}"
  by (induction G t x rule: push_group.induct) auto

lemma mset_concat_group_by_topic: "mset (concat (map snd (group_by_topic segs))) = mset segs"
  by (induction segs rule: rev_induct) (auto simp: group_by_topic_def mset_concat_push_group)

lemma keys_push_group:
  "map fst (push_group G t x) = (if t \<in> set (map fst G) then map fst G else map fst G @ [t])"
  by (induction G t x rule: push_group.induct) auto

lemma map_of_push_group:
  "map_of (push_group G t x) =
     (map_of G)(t \<mapsto> (case map_of G t of None \<Rightarrow> [x] | Some ss \<Rightarrow> ss @ [x]))"
  by (induction G t x rule: push_group.induct) (auto simp: fun_eq_iff)

lemma distinct_keys_group_by_topic: "distinct (map fst (group_by_topic segs))"
  by (induction segs rule: rev_induct) (auto simp: group_by_topic_def keys_push_group)

lemma map_of_group_by_topic:
  "map_of (group_by_topic segs) t =
     (if t \<in> topic_of ` set segs then Some (filter (\<lambda>s. topic_of s = t) segs) else None)"
proof (induction segs rule: rev_induct)
  case Nil
  then show ?case
    by (simp add: group_by_topic_def)
next
  case (snoc x xs)
  have "group_by_topic (xs @ [x]) = push_group (group_by_topic xs) (topic_of x) x"
    by (simp add: group_by_topic_def)
  moreover have "filter (\<lambda>s. topic_of s = topic_of x) xs = []"
    if "topic_of x \<notin> topic_of ` set xs"
  proof (rule filter_False, rule ballI)
    fix s
    assume "s \<in> set xs"
    then have "topic_of s \<in> topic_of ` set xs"
      by (rule imageI)
    with that show "\<not> topic_of s = topic_of x"
      by metis
  qed
  ultimately show ?case
    using snoc by (auto simp: map_of_push_group)
qed

lemma group_entry:
  assumes "(t, ss) \<in> set (group_by_topic segs)"
  shows "ss = filter (\<lambda>s. topic_of s = t) segs \<and> t \<in> topic_of ` set segs"
proof -
  have "map_of (group_by_topic segs) t = Some ss"
    using assms distinct_keys_group_by_topic by (simp add: map_of_eq_Some_iff)
  then show ?thesis
    by (auto simp: map_of_group_by_topic split: if_splits)
qed


lemma set_build_sections:
  "set (build_sections rt ms mx sm ts) =
     make_section mx sm ` set (group_by_topic (limit ms ts))"
  by (simp add: build_sections_def Let_def set_sort_sections set_object_entries)

lemma mset_build_sections:
  "mset (build_sections rt ms mx sm ts) =
     image_mset (make_section mx sm) (mset (group_by_topic (limit ms ts)))"
  by (simp add: build_sections_def Let_def mset_sort_sections mset_object_entries)

lemma section_texts:
  "map ex_text (sec_exchanges (make_section mx sm e)) = map (segment_text mx) (snd e)"
  by (simp add: make_section_def Let_def ex_text_make_exchange comp_def)

lemma mset_concat_cong:
  assumes "mset xs = mset ys"
  shows "mset (concat (map f xs)) = mset (concat (map f ys))"
proof -
  have "mset (concat (map f zs)) = sum_mset (image_mset (\<lambda>x. mset (f x)) (mset zs))" for zs
    by (induction zs) auto
  then show ?thesis
    using assms by simp
qed

lemma mset_flatten:
  "mset (flatten_texts (build_sections rt ms mx sm ts)) = mset (original_texts ms mx ts)"
proof -
  let ?G = "group_by_topic (limit ms ts)"
  have "mset (build_sections rt ms mx sm ts) = mset (map (make_section mx sm) ?G)"
    by (simp add: mset_build_sections)
  then have "mset (flatten_texts (build_sections rt ms mx sm ts))
      = mset (flatten_texts (map (make_section mx sm) ?G))"
    unfolding flatten_texts_def by (rule mset_concat_cong)
  also have "flatten_texts (map (make_section mx sm) ?G)
      = map (segment_text mx) (concat (map snd ?G))"
    by (simp add: flatten_texts_def section_texts comp_def map_concat)
  also have "mset \<dots> = mset (map (segment_text mx) (limit ms ts))"
    by (simp add: mset_concat_group_by_topic)
  finally show ?thesis
    by (simp add: original_texts_def)
qed

lemma group_single_topic:
  "\<forall>s \<in> set segs. topic_of s = t \<Longrightarrow>
   group_by_topic segs = (if segs = [] then [] else [(t, segs)])"
  by (induction segs rule: rev_induct) (auto simp: group_by_topic_def)

lemma flatten_single_topic:
  assumes "\<forall>s \<in> set (limit ms ts). topic_of s = t"
  shows "flatten_texts (build_sections rt ms mx sm ts) = original_texts ms mx ts"
  using group_single_topic [OF assms]
  by (auto simp: build_sections_def Let_def sort_sections_def flatten_texts_def section_texts
      original_texts_def object_entries_def)

lemma distinct_section_topics: "distinct (map sec_topic (build_sections rt ms mx sm ts))"
proof -
  have "mset (map sec_topic (build_sections rt ms mx sm ts))
      = mset (map fst (group_by_topic (limit ms ts)))"
    by (simp add: mset_build_sections make_section_def Let_def multiset.map_comp comp_def)
  then show ?thesis
    by (metis distinct_keys_group_by_topic mset_eq_imp_distinct_iff)
qed

lemma section_exchanges:
  assumes "sec \<in> set (build_sections rt ms mx sm ts)"
  shows "sec_exchanges sec =
           map (make_exchange mx sm) (filter (\<lambda>s. topic_of s = sec_topic sec) (limit ms ts))"
proof -
  obtain e where e: "e \<in> set (group_by_topic (limit ms ts))" "sec = make_section mx sm e"
    using assms unfolding set_build_sections by blast
  have "snd e = filter (\<lambda>s. topic_of s = fst e) (limit ms ts)"
    using group_entry [of "fst e" "snd e"] e(1) by simp
  then show ?thesis
    using e(2) by (simp add: make_section_def Let_def)
qed


lemma formatted_sections:
  "format \<noteq> Raw \<Longrightarrow> format_transcript rt format ms mx sm call ts = Inr (Formatted ft) \<Longrightarrow>
   ft_sections ft = build_sections rt ms mx sm ts"
  by (auto simp: format_transcript_def split: sum.splits)

lemmas format_steps =
  format_transcript_def new_Date_toISOString_def build_sections_def group_by_topic_def
  topic_of_def or_else_def limit_def object_entries_def is_array_index_def make_section_def
  make_exchange_def processSegment_def sort_sections_def section_start_def substring0_def
  string_of_nat.simps padStart2_def digit_char_def nat_of_digits_def digit_value_def
  example_runtime_def dated_call_def bare_call_def interleaved_def

lemma interleaved_is_formatted:
  "format_transcript example_runtime Concise 0 0 Map.empty dated_call interleaved =
     Inr (Formatted interleaved_formatted)"
  by (simp add: format_steps interleaved_formatted_def unknown_speaker_def)

text \<open>
  Claim C4, as amended. For every transcript and every setting of \<open>maxSegments\<close> and
  \<open>maxSentences\<close>, the flattened texts of the non-raw output are a rearrangement of the
  original texts of the truncated transcript: the same texts, each as often. The sections
  have distinct topics, and the texts of each section are, in the original order, the texts
  of the segments of its topic. When all segments have one topic, the flattening is the
  original text, in order.
\<close>

theorem regrouped_texts_rearranged:
  assumes "format \<noteq> Raw"
    and "format_transcript rt format ms mx sm call ts = Inr (Formatted ft)"
  shows "mset (flatten_texts (ft_sections ft)) = mset (original_texts ms mx ts) \<and>
         distinct (map sec_topic (ft_sections ft)) \<and>
         (\<forall>sec \<in> set (ft_sections ft).
            map ex_text (sec_exchanges sec) =
              map (segment_text mx) (filter (\<lambda>s. topic_of s = sec_topic sec) (limit ms ts))) \<and>
         ((\<forall>s \<in> set (limit ms ts). topic_of s = t) \<longrightarrow>
            flatten_texts (ft_sections ft) = original_texts ms mx ts)"
proof -
  have s: "ft_sections ft = build_sections rt ms mx sm ts"
    using assms by (rule formatted_sections)
  have per_section: "\<forall>sec \<in> set (ft_sections ft).
            map ex_text (sec_exchanges sec) =
              map (segment_text mx) (filter (\<lambda>s. topic_of s = sec_topic sec) (limit ms ts))"
    unfolding s using section_exchanges by (simp add: ex_text_make_exchange comp_def)
  have rearranged: "mset (flatten_texts (ft_sections ft)) = mset (original_texts ms mx ts)"
    unfolding s by (rule mset_flatten)
  have topics: "distinct (map sec_topic (ft_sections ft))"
    unfolding s by (rule distinct_section_topics)
  have single: "(\<forall>s \<in> set (limit ms ts). topic_of s = t) \<longrightarrow>
            flatten_texts (ft_sections ft) = original_texts ms mx ts"
    unfolding s using flatten_single_topic by blast
  from rearranged topics per_section single show ?thesis
    by (intro conjI)
qed

theorem regrouped_texts_rearranged_witness:
  "Concise \<noteq> Raw \<and>
   format_transcript example_runtime Concise 0 0 Map.empty dated_call interleaved =
     Inr (Formatted interleaved_formatted) \<and>
   mset (flatten_texts (ft_sections interleaved_formatted)) =
     mset (original_texts 0 0 interleaved) \<and>
   distinct (map sec_topic (ft_sections interleaved_formatted))"
proof -
  have fmt: "Concise \<noteq> Raw"
    by simp
  show ?thesis
    using regrouped_texts_rearranged [OF fmt interleaved_is_formatted] interleaved_is_formatted
    by simp
qed

text \<open>
  Claim C4 as stated fails: the transcript \<open>interleaved\<close> comes back to its first topic,
  and the flattening puts the third segment before the second.
\<close>

theorem regrouping_reorders_texts:
  "flatten_texts (sections_of
      (format_transcript example_runtime Concise 0 0 Map.empty dated_call interleaved))
     = [''a'', ''c d'', ''b''] \<and>
   original_texts 0 0 interleaved = [''a'', ''b'', ''c d'']"
  by (simp add: format_steps sections_of_def flatten_texts_def original_texts_def
      segment_text_def)

text \<open>
  Claim C8. \<open>getFormattedTranscript\<close> returns the same result, and leaves the same state,
  for the formats \<open>concise\<close> and \<open>full\<close>, for every call, transcript and setting.
\<close>

theorem concise_equals_full:
  "getFormattedTranscript rt api now callId Concise maxSegments maxSentences w =
   getFormattedTranscript rt api now callId Full maxSegments maxSentences w"
proof -
  have "format_transcript rt Concise maxSegments maxSentences sm c ts =
        format_transcript rt Full maxSegments maxSentences sm c ts" for sm c ts
    by (simp add: format_transcript_def split: sum.splits)
  then show ?thesis
    unfolding getFormattedTranscript_def by (simp only:)
qed





section \<open>The call catalog\<close>

lemma getFormattedTranscript_fails_transcripts:
  assumes "api_getCall (answers api w) callId = Inr r"
    and "api_getTranscripts (answers api (logged (GetCall callId) w)) [callId] = Inl e"
  shows "fst (getFormattedTranscript rt api now callId format ms mx w) = Inl e"
  using assms
  by (simp add: getFormattedTranscript_def apiClient_getCall_def apiClient_getTranscripts_def)

text \<open>
  Claim C5. When \<open>getCall\<close> is asked for the transcript, the fetch of the call succeeds
  and \<open>getFormattedTranscript\<close> throws, \<open>getCall\<close> does not throw: it returns the
  normalized call, unchanged, and no transcript.
\<close>

theorem getCall_isolates_transcript_failure:
  assumes "gp_includeTranscript params = Some True"
    and "api_getCall (answers api w) (gp_callId params) = Inr \<lparr>cr_call = Some rawCall\<rparr>"
    and "fst (getFormattedTranscript rt api now (gp_callId params)
                (case gp_transcriptFormat params of None \<Rightarrow> Concise | Some f \<Rightarrow> f)
                (case gp_maxSegments params of None \<Rightarrow> 0 | Some n \<Rightarrow> n)
                (case gp_maxSentences params of None \<Rightarrow> 0 | Some n \<Rightarrow> n)
                (logged (GetCall (gp_callId params)) w)) = Inl e"
  shows "fst (getCall rt api now params w) =
           Inr \<lparr>r_call = formatCall rawCall, r_transcript = None\<rparr>"
proof -
  let ?t = "getFormattedTranscript rt api now (gp_callId params)
                (case gp_transcriptFormat params of None \<Rightarrow> Concise | Some f \<Rightarrow> f)
                (case gp_maxSegments params of None \<Rightarrow> 0 | Some n \<Rightarrow> n)
                (case gp_maxSentences params of None \<Rightarrow> 0 | Some n \<Rightarrow> n)
                (logged (GetCall (gp_callId params)) w)"
  obtain w2 where "?t = (Inl e, w2)"
    using assms(3) by (cases ?t) auto
  then show ?thesis
    using assms(1,2) by (simp add: getCall_def apiClient_getCall_def Let_def)
qed

theorem getCall_isolates_transcript_failure_witness:
  "gp_includeTranscript with_transcript = Some True \<and>
   api_getCall (answers transcripts_down initial_world) (gp_callId with_transcript) =
     Inr \<lparr>cr_call = Some dated_call\<rparr> \<and>
   fst (getFormattedTranscript example_runtime transcripts_down 1000 ''c1'' Concise 0 0
          (logged (GetCall ''c1'') initial_world)) = Inl (ApiError ''503'') \<and>
   fst (getCall example_runtime transcripts_down 1000 with_transcript initial_world) =
     Inr \<lparr>r_call = formatCall dated_call, r_transcript = None\<rparr>"
proof -
  have asked: "gp_includeTranscript with_transcript = Some True"
    by (simp add: with_transcript_def)
  have call: "api_getCall (answers transcripts_down initial_world) (gp_callId with_transcript) =
      Inr \<lparr>cr_call = Some dated_call\<rparr>"
    by (simp add: answers_def transcripts_down_def)
  have again: "api_getCall (answers transcripts_down (logged (GetCall ''c1'') initial_world)) ''c1''
      = Inr \<lparr>cr_call = Some dated_call\<rparr>"
    by (simp add: answers_def transcripts_down_def)
  have down: "api_getTranscripts
      (answers transcripts_down (logged (GetCall ''c1'') (logged (GetCall ''c1'') initial_world)))
      [''c1''] = Inl (ApiError ''503'')"
    by (simp add: answers_def transcripts_down_def failing_api_def)
  have failure: "fst (getFormattedTranscript example_runtime transcripts_down 1000 ''c1'' Concise
      0 0 (logged (GetCall ''c1'') initial_world)) = Inl (ApiError ''503'')"
    using again down by (rule getFormattedTranscript_fails_transcripts)
  have params: "gp_callId with_transcript = ''c1'' \<and> gp_transcriptFormat with_transcript = None \<and>
      gp_maxSegments with_transcript = None \<and> gp_maxSentences with_transcript = None"
    by (simp add: with_transcript_def)
  have "fst (getCall example_runtime transcripts_down 1000 with_transcript initial_world) =
      Inr \<lparr>r_call = formatCall dated_call, r_transcript = None\<rparr>"
    using failure params
    by (intro getCall_isolates_transcript_failure [OF asked call, of _ _ "ApiError ''503''"])
       simp
  then show ?thesis
    using asked call failure by blast
qed

end
